theory Spec2Isabelle
  imports Main "HOL-Library.Word" "HOL-Library.Char_ord" "HOL-Library.List_Lexorder"
begin

section \<open>The HTML5 filesystem adapter of nacl\_io (html5\_fs.cc)\<close>

text \<open>
  The adapter offers blocking POSIX-like operations on top of the Pepper file
  interfaces. Everything the source file does is kept: the order of the checks, the
  early returns, the requests sent to Pepper and their arguments. Pepper itself is a
  black box: each of its entry points is a field of an environment record, and its
  answer may depend on every request made so far, so the requests are logged in the
  state and the log is handed to the entry point.
\<close>

subsection \<open>Values\<close>

type_synonym Error = int
type_synonym PP_Resource = "32 word"
type_synonym PP_Instance = "32 word"

text \<open>Constants of \<^verbatim>\<open>errno.h\<close> (Linux numbering); \<open>0\<close> is success.\<close>

definition ENOENT :: Error where "ENOENT = 2"
definition EEXIST :: Error where "EEXIST = 17"
definition ENOTDIR :: Error where "ENOTDIR = 20"
definition EISDIR :: Error where "EISDIR = 21"
definition EINVAL :: Error where "EINVAL = 22"
definition ENOSYS :: Error where "ENOSYS = 38"

text \<open>Constants of the Pepper C headers and of \<^verbatim>\<open>fcntl.h\<close>.\<close>

definition PP_OK :: int where "PP_OK = 0"
definition PP_FILETYPE_REGULAR :: int where "PP_FILETYPE_REGULAR = 0"
definition PP_FILETYPE_DIRECTORY :: int where "PP_FILETYPE_DIRECTORY = 1"
definition PP_FILESYSTEMTYPE_LOCALPERSISTENT :: int where "PP_FILESYSTEMTYPE_LOCALPERSISTENT = 2"
definition PP_FILESYSTEMTYPE_LOCALTEMPORARY :: int where "PP_FILESYSTEMTYPE_LOCALTEMPORARY = 3"
definition O_RDONLY :: int where "O_RDONLY = 0"

text \<open>
  Modelled from the spec: the restriction masks of the generalised remove (file-only,
  directory-only, unrestricted), whose declaration is in the class header and not in
  the source file. Two distinct bits and their union.
\<close>

definition REMOVE_DIR :: int where "REMOVE_DIR = 1"
definition REMOVE_FILE :: int where "REMOVE_FILE = 2"
definition REMOVE_ALL :: int where "REMOVE_ALL = or REMOVE_DIR REMOVE_FILE"

text \<open>
  A \<^verbatim>\<open>const char*\<close> taken from \<^verbatim>\<open>std::string::c_str()\<close>. \<open>Valid s\<close> points into a
  string that is alive while the pointer is read. \<open>Dangling s\<close> points into the buffer
  of a temporary that held \<open>s\<close> and was destroyed at the end of the full-expression
  that produced it: the pointer is read after the lifetime of what it points to.
\<close>

datatype c_str = Valid string | Dangling string

text \<open>How the asynchronous open is asked to complete.\<close>

datatype PP_CompletionCallback = FilesystemOpenCallbackThunk | PP_BlockUntilComplete

text \<open>The requests the source file sends, in the order it sends them.\<close>

datatype pp_call =
    Call_FileRef_Create PP_Resource c_str
  | Call_FileRef_Query PP_Resource
  | Call_FileRef_MakeDirectory PP_Resource bool
  | Call_FileRef_Delete PP_Resource
  | Call_FileRef_Rename PP_Resource PP_Resource
  | Call_FileSystem_IsFileSystem PP_Resource
  | Call_FileSystem_Create PP_Instance int
  | Call_FileSystem_Open PP_Resource "64 word" PP_CompletionCallback
  | Call_Core_IsMainThread
  | Call_AddRefResource PP_Resource
  | Call_ReleaseResource PP_Resource
  | Call_Node_Init PP_Resource int

text \<open>The node handed back by \<open>Open\<close>: it owns the entry reference it was built from.\<close>

datatype Html5FsNode = Html5FsNode PP_Resource

text \<open>\<^verbatim>\<open>FsInitArgs\<close>: the string map in iteration order, and whether \<^verbatim>\<open>args.ppapi\<close> is set.\<close>

record FsInitArgs =
  string_map :: "(string \<times> string) list"
  ppapi :: bool

text \<open>
  \<^verbatim>\<open>StringMap_t\<close> is a \<^verbatim>\<open>std::map\<close> of strings: its iteration visits the keys in
  strictly increasing byte-wise lexicographic order.
\<close>

definition string_map_ok :: "(string \<times> string) list \<Rightarrow> bool" where
  "string_map_ok m = sorted_wrt (<) (map fst m)"

text \<open>
  What the source file calls and does not define. \<open>'p\<close> is the \<^verbatim>\<open>Path\<close> class with
  the three members used here. The Pepper entry points and \<^verbatim>\<open>Html5FsNode::Init\<close>
  receive the log of earlier requests first. \<^verbatim>\<open>ScopedResource\<close> only carries a
  resource here; what its destructor does is outside the source file and is not
  logged.
\<close>

record 'p env =
  Path_Prepend :: "string \<Rightarrow> 'p \<Rightarrow> 'p"
  Path_Join :: "'p \<Rightarrow> string"
  Path_IsRoot :: "'p \<Rightarrow> bool"
  PPErrorToErrno :: "int \<Rightarrow> Error"
  Filesystem_Init :: "FsInitArgs \<Rightarrow> Error"
  GetInstance :: PP_Instance
  FileRef_Create :: "pp_call list \<Rightarrow> PP_Resource \<Rightarrow> c_str \<Rightarrow> PP_Resource"
  FileRef_Query :: "pp_call list \<Rightarrow> PP_Resource \<Rightarrow> int \<times> int"
  FileRef_MakeDirectory :: "pp_call list \<Rightarrow> PP_Resource \<Rightarrow> bool \<Rightarrow> int"
  FileRef_Delete :: "pp_call list \<Rightarrow> PP_Resource \<Rightarrow> int"
  FileRef_Rename :: "pp_call list \<Rightarrow> PP_Resource \<Rightarrow> PP_Resource \<Rightarrow> int"
  FileSystem_IsFileSystem :: "pp_call list \<Rightarrow> PP_Resource \<Rightarrow> bool"
  FileSystem_Create :: "pp_call list \<Rightarrow> PP_Instance \<Rightarrow> int \<Rightarrow> PP_Resource"
  FileSystem_Open :: "pp_call list \<Rightarrow> PP_Resource \<Rightarrow> 64 word \<Rightarrow> PP_CompletionCallback \<Rightarrow> int"
  Core_IsMainThread :: "pp_call list \<Rightarrow> bool"
  Node_Init :: "pp_call list \<Rightarrow> PP_Resource \<Rightarrow> int \<Rightarrow> Error"

subsection \<open>State\<close>

text \<open>
  The members of \<^verbatim>\<open>Html5Fs\<close> that the source file reads and writes, named as in
  the source without the trailing underscore.
\<close>

record Html5Fs =
  prefix :: string
  filesystem_resource :: PP_Resource
  filesystem_open_has_result :: bool
  filesystem_open_error :: Error

text \<open>The object together with the log of requests sent to Pepper.\<close>

record state =
  self :: Html5Fs
  calls :: "pp_call list"

definition log_call :: "pp_call \<Rightarrow> state \<Rightarrow> state" where
  "log_call c s = s\<lparr>calls := calls s @ [c]\<rparr>"

text \<open>The constructor \<^verbatim>\<open>Html5Fs::Html5Fs()\<close>.\<close>

definition Html5Fs_new :: Html5Fs where
  "Html5Fs_new = \<lparr>prefix = [], filesystem_resource = 0,
     filesystem_open_has_result = False, filesystem_open_error = 0\<rparr>"

subsection \<open>The readiness gate\<close>

text \<open>
  \<^verbatim>\<open>BlockUntilFilesystemOpen\<close> waits on the condition variable while the flag is
  unset. Within one call nothing else runs, so a caller that finds the flag unset
  does not return: that is \<open>None\<close>. It writes nothing.
\<close>

definition BlockUntilFilesystemOpen :: "state \<Rightarrow> (Error \<times> state) option" where
  "BlockUntilFilesystemOpen s =
     (if filesystem_open_has_result (self s)
      then Some (filesystem_open_error (self s), s) else None)"

definition FilesystemOpenCallback :: "'p env \<Rightarrow> int \<Rightarrow> state \<Rightarrow> state" where
  "FilesystemOpenCallback env result s =
     s\<lparr>self := (self s)\<lparr>filesystem_open_has_result := True,
                          filesystem_open_error := PPErrorToErrno env result\<rparr>\<rparr>"

definition FilesystemOpenCallbackThunk_run :: "'p env \<Rightarrow> int \<Rightarrow> state \<Rightarrow> state" where
  "FilesystemOpenCallbackThunk_run env result s = FilesystemOpenCallback env result s"

subsection \<open>Operations\<close>

definition GetFullPath :: "'p env \<Rightarrow> state \<Rightarrow> 'p \<Rightarrow> 'p" where
  "GetFullPath env s path = Path_Prepend env (prefix (self s)) path"

text \<open>
  \<open>Open\<close> takes what the caller's slot \<^verbatim>\<open>*out_node\<close> held and returns what it holds
  when the call returns or stops at the gate, together with the return value (\<open>None\<close>
  when the call does not return). The slot is cleared before anything else happens.
\<close>

definition Open :: "'p env \<Rightarrow> 'p \<Rightarrow> int \<Rightarrow> Html5FsNode option \<Rightarrow> state
    \<Rightarrow> Html5FsNode option \<times> (Error \<times> state) option" where
  "Open env path open_flags out_node s =
     (let out0 = (None :: Html5FsNode option) in
      case BlockUntilFilesystemOpen s of
        None \<Rightarrow> (out0, None)
      | Some (error, s1) \<Rightarrow>
          if error \<noteq> 0 then (out0, Some (error, s1))
          else
            let full = Valid (Path_Join env (GetFullPath env s1 path));
                fileref = FileRef_Create env (calls s1) (filesystem_resource (self s1)) full;
                s2 = log_call (Call_FileRef_Create (filesystem_resource (self s1)) full) s1
            in if fileref = 0 then (out0, Some (ENOENT, s2))
               else
                 let node = Html5FsNode fileref;
                     error2 = Node_Init env (calls s2) fileref open_flags;
                     s3 = log_call (Call_Node_Init fileref open_flags) s2
                 in if error2 \<noteq> 0 then (out0, Some (error2, s3))
                    else (Some node, Some (0, s3)))"

text \<open>The node of \<open>Access\<close> is a local: only the return value of \<open>Open\<close> is passed on.\<close>

definition Access :: "'p env \<Rightarrow> 'p \<Rightarrow> int \<Rightarrow> state \<Rightarrow> (Error \<times> state) option" where
  "Access env path a_mode s = snd (Open env path O_RDONLY None s)"

definition Mkdir :: "'p env \<Rightarrow> 'p \<Rightarrow> int \<Rightarrow> state \<Rightarrow> (Error \<times> state) option" where
  "Mkdir env path permissions s =
     (case BlockUntilFilesystemOpen s of
        None \<Rightarrow> None
      | Some (error, s1) \<Rightarrow>
          if error \<noteq> 0 then Some (error, s1)
          else if Path_IsRoot env path then Some (EEXIST, s1)
          else
            let full = Valid (Path_Join env (GetFullPath env s1 path));
                fileref = FileRef_Create env (calls s1) (filesystem_resource (self s1)) full;
                s2 = log_call (Call_FileRef_Create (filesystem_resource (self s1)) full) s1
            in if fileref = 0 then Some (ENOENT, s2)
               else
                 let result = FileRef_MakeDirectory env (calls s2) fileref False;
                     s3 = log_call (Call_FileRef_MakeDirectory fileref False) s2
                 in if result \<noteq> PP_OK then Some (PPErrorToErrno env result, s3)
                    else Some (0, s3))"

definition RemoveInternal :: "'p env \<Rightarrow> 'p \<Rightarrow> int \<Rightarrow> state \<Rightarrow> (Error \<times> state) option" where
  "RemoveInternal env path remove_type s =
     (case BlockUntilFilesystemOpen s of
        None \<Rightarrow> None
      | Some (error, s1) \<Rightarrow>
          if error \<noteq> 0 then Some (error, s1)
          else
            let full = Valid (Path_Join env (GetFullPath env s1 path));
                fileref = FileRef_Create env (calls s1) (filesystem_resource (self s1)) full;
                s2 = log_call (Call_FileRef_Create (filesystem_resource (self s1)) full) s1
            in if fileref = 0 then Some (ENOENT, s2)
               else
                 let checked =
                       (if remove_type \<noteq> REMOVE_ALL then
                          (let (query_result, file_type) = FileRef_Query env (calls s2) fileref;
                               s3 = log_call (Call_FileRef_Query fileref) s2
                           in if query_result \<noteq> PP_OK then (Some EINVAL, s3)
                              else if file_type = PP_FILETYPE_DIRECTORY then
                                (if and remove_type REMOVE_DIR = 0 then (Some EISDIR, s3)
                                 else (None, s3))
                              else if file_type = PP_FILETYPE_REGULAR then
                                (if and remove_type REMOVE_FILE = 0 then (Some ENOTDIR, s3)
                                 else (None, s3))
                              else (Some EINVAL, s3))
                        else (None, s2))
                 in (case checked of
                       (Some e, s3) \<Rightarrow> Some (e, s3)
                     | (None, s3) \<Rightarrow>
                         let result = FileRef_Delete env (calls s3) fileref;
                             s4 = log_call (Call_FileRef_Delete fileref) s3
                         in if result \<noteq> PP_OK then Some (PPErrorToErrno env result, s4)
                            else Some (0, s4)))"

definition Unlink :: "'p env \<Rightarrow> 'p \<Rightarrow> state \<Rightarrow> (Error \<times> state) option" where
  "Unlink env path s = RemoveInternal env path REMOVE_FILE s"

definition Rmdir :: "'p env \<Rightarrow> 'p \<Rightarrow> state \<Rightarrow> (Error \<times> state) option" where
  "Rmdir env path s = RemoveInternal env path REMOVE_DIR s"

definition Remove :: "'p env \<Rightarrow> 'p \<Rightarrow> state \<Rightarrow> (Error \<times> state) option" where
  "Remove env path s = RemoveInternal env path REMOVE_ALL s"

text \<open>
  In \<open>Rename\<close> each full path is a \<^verbatim>\<open>const char*\<close> local initialised from
  \<^verbatim>\<open>GetFullPath(..).Join().c_str()\<close>; the temporaries are gone when the statement
  ends, and the pointer is passed to \<^verbatim>\<open>Create\<close> in a later statement.
\<close>

definition Rename :: "'p env \<Rightarrow> 'p \<Rightarrow> 'p \<Rightarrow> state \<Rightarrow> (Error \<times> state) option" where
  "Rename env path newpath s =
     (case BlockUntilFilesystemOpen s of
        None \<Rightarrow> None
      | Some (error, s1) \<Rightarrow>
          if error \<noteq> 0 then Some (error, s1)
          else
            let oldpath_full = Dangling (Path_Join env (GetFullPath env s1 path));
                fileref = FileRef_Create env (calls s1) (filesystem_resource (self s1)) oldpath_full;
                s2 = log_call (Call_FileRef_Create (filesystem_resource (self s1)) oldpath_full) s1
            in if fileref = 0 then Some (ENOENT, s2)
               else
                 let newpath_full = Dangling (Path_Join env (GetFullPath env s2 newpath));
                     new_fileref = FileRef_Create env (calls s2) (filesystem_resource (self s2)) newpath_full;
                     s3 = log_call (Call_FileRef_Create (filesystem_resource (self s2)) newpath_full) s2
                 in if new_fileref = 0 then Some (ENOENT, s3)
                    else
                      let result = FileRef_Rename env (calls s3) fileref new_fileref;
                          s4 = log_call (Call_FileRef_Rename fileref new_fileref) s3
                      in if result \<noteq> PP_OK then Some (PPErrorToErrno env result, s4)
                         else Some (0, s4))"

subsection \<open>Initialisation\<close>

text \<open>
  \<^verbatim>\<open>strtoull(s, NULL, 10)\<close> of the C library: white space is skipped, one sign is
  accepted, the longest run of decimal digits is read; no digits give 0, a value
  beyond 64 bits gives \<^verbatim>\<open>ULLONG_MAX\<close>, a minus sign negates the value in 64 bits.
\<close>

definition isspace :: "char \<Rightarrow> bool" where
  "isspace c = (c = CHR '' '' \<or> (9 \<le> (of_char c :: int) \<and> (of_char c :: int) \<le> 13))"

definition isdigit :: "char \<Rightarrow> bool" where
  "isdigit c = (48 \<le> (of_char c :: int) \<and> (of_char c :: int) \<le> 57)"

fun digits_value :: "int \<Rightarrow> string \<Rightarrow> int" where
  "digits_value acc [] = acc"
| "digits_value acc (c # cs) =
     (if isdigit c then digits_value (acc * 10 + (of_char c - 48)) cs else acc)"

definition strtoull :: "string \<Rightarrow> 64 word" where
  "strtoull s =
     (let s1 = dropWhile isspace s;
          neg = (s1 \<noteq> [] \<and> hd s1 = CHR ''-'');
          s2 = (if s1 \<noteq> [] \<and> (hd s1 = CHR ''-'' \<or> hd s1 = CHR ''+'') then tl s1 else s1);
          v = digits_value 0 s2
      in if v > 18446744073709551615 then - 1
         else if neg then - (of_int v)
         else of_int v)"

text \<open>
  The loop over the string map. It returns the error of an early return, if any, with
  the two locals \<^verbatim>\<open>filesystem_type\<close> and \<^verbatim>\<open>expected_size\<close> and the state reached.
  The resource identifier is the 64-bit value narrowed to \<^verbatim>\<open>PP_Resource\<close>.
\<close>

fun Init_parse :: "'p env \<Rightarrow> (string \<times> string) list \<Rightarrow> int \<Rightarrow> 64 word \<Rightarrow> state
    \<Rightarrow> Error option \<times> int \<times> 64 word \<times> state" where
  "Init_parse env [] filesystem_type expected_size s =
     (None, filesystem_type, expected_size, s)"
| "Init_parse env ((first, second) # rest) filesystem_type expected_size s =
     (if first = ''type'' then
        (if second = ''PERSISTENT'' then
           Init_parse env rest PP_FILESYSTEMTYPE_LOCALPERSISTENT expected_size s
         else if second = ''TEMPORARY'' then
           Init_parse env rest PP_FILESYSTEMTYPE_LOCALTEMPORARY expected_size s
         else if second = [] then
           Init_parse env rest PP_FILESYSTEMTYPE_LOCALPERSISTENT expected_size s
         else (Some EINVAL, filesystem_type, expected_size, s))
      else if first = ''expected_size'' then
        Init_parse env rest filesystem_type (strtoull second) s
      else if first = ''filesystem_resource'' then
        (let resource = (ucast (strtoull second) :: PP_Resource);
             valid = FileSystem_IsFileSystem env (calls s) resource;
             s1 = log_call (Call_FileSystem_IsFileSystem resource) s
         in if \<not> valid then (Some EINVAL, filesystem_type, expected_size, s1)
            else
              Init_parse env rest filesystem_type expected_size
                (log_call (Call_AddRefResource resource)
                   (s1\<lparr>self := (self s1)\<lparr>filesystem_resource := resource\<rparr>\<rparr>)))
      else if first = ''SOURCE'' then
        Init_parse env rest filesystem_type expected_size
          (s\<lparr>self := (self s)\<lparr>prefix := second\<rparr>\<rparr>)
      else (Some EINVAL, filesystem_type, expected_size, s))"

definition Init :: "'p env \<Rightarrow> FsInitArgs \<Rightarrow> state \<Rightarrow> Error \<times> state" where
  "Init env args s =
     (let error = Filesystem_Init env args in
      if error \<noteq> 0 then (error, s)
      else if \<not> ppapi args then (ENOSYS, s)
      else
        case Init_parse env (string_map args) PP_FILESYSTEMTYPE_LOCALPERSISTENT 0 s of
          (Some e, filesystem_type, expected_size, s1) \<Rightarrow> (e, s1)
        | (None, filesystem_type, expected_size, s1) \<Rightarrow>
            if filesystem_resource (self s1) \<noteq> 0 then
              (0, s1\<lparr>self := (self s1)\<lparr>filesystem_open_has_result := True,
                                         filesystem_open_error := PP_OK\<rparr>\<rparr>)
            else
              let r = FileSystem_Create env (calls s1) (GetInstance env) filesystem_type;
                  s2 = log_call (Call_FileSystem_Create (GetInstance env) filesystem_type)
                         (s1\<lparr>self := (self s1)\<lparr>filesystem_resource := r\<rparr>\<rparr>)
              in if r = 0 then (ENOSYS, s2)
                 else
                   let main_thread = Core_IsMainThread env (calls s2);
                       s3 = log_call Call_Core_IsMainThread s2;
                       cc = (if main_thread then FilesystemOpenCallbackThunk
                             else PP_BlockUntilComplete);
                       result = FileSystem_Open env (calls s3) r expected_size cc;
                       s4 = log_call (Call_FileSystem_Open r expected_size cc) s3
                   in if \<not> main_thread then
                        (PPErrorToErrno env result,
                         s4\<lparr>self := (self s4)\<lparr>filesystem_open_has_result := True,
                               filesystem_open_error := PPErrorToErrno env result\<rparr>\<rparr>)
                      else (0, s4))"

definition Destroy :: "'p env \<Rightarrow> state \<Rightarrow> state" where
  "Destroy env s = log_call (Call_ReleaseResource (filesystem_resource (self s))) s"

subsection \<open>Sequences of calls\<close>

text \<open>
  A caller's view of the adapter: the seven public operations, run one after the
  other on the same object. A call that does not return ends the run with \<open>None\<close>.
\<close>

datatype 'p fs_call =
    Op_Access 'p int
  | Op_Open 'p int
  | Op_Mkdir 'p int
  | Op_Rmdir 'p
  | Op_Unlink 'p
  | Op_Remove 'p
  | Op_Rename 'p 'p

fun run_call :: "'p env \<Rightarrow> 'p fs_call \<Rightarrow> state \<Rightarrow> (Error \<times> state) option" where
  "run_call env (Op_Access path a_mode) s = Access env path a_mode s"
| "run_call env (Op_Open path open_flags) s = snd (Open env path open_flags None s)"
| "run_call env (Op_Mkdir path permissions) s = Mkdir env path permissions s"
| "run_call env (Op_Rmdir path) s = Rmdir env path s"
| "run_call env (Op_Unlink path) s = Unlink env path s"
| "run_call env (Op_Remove path) s = Remove env path s"
| "run_call env (Op_Rename path newpath) s = Rename env path newpath s"

fun run_calls :: "'p env \<Rightarrow> 'p fs_call list \<Rightarrow> state \<Rightarrow> (Error list \<times> state) option" where
  "run_calls env [] s = Some ([], s)"
| "run_calls env (c # cs) s =
     (case run_call env c s of
        None \<Rightarrow> None
      | Some (e, s1) \<Rightarrow>
          (case run_calls env cs s1 of
             None \<Rightarrow> None
           | Some (es, s2) \<Rightarrow> Some (e # es, s2)))"

subsection \<open>A small environment for concrete runs\<close>

text \<open>
  Paths are plain strings here, prepending is concatenation and the root is \<open>/\<close>. The
  service hands out the length of the path as the entry reference (so the empty path
  has none), reports reference 2 as a directory, 3 as a regular file, fails the query
  on 5 and calls everything else an unknown type; it accepts 5 as a filesystem handle.
  Native codes other than success are translated to 5 (\<^verbatim>\<open>EIO\<close>).
\<close>

definition demo_env :: "string env" where
  "demo_env = \<lparr>
     Path_Prepend = (\<lambda>pre path. pre @ path),
     Path_Join = (\<lambda>path. path),
     Path_IsRoot = (\<lambda>path. path = ''/''),
     PPErrorToErrno = (\<lambda>r. if r = PP_OK then 0 else 5),
     Filesystem_Init = (\<lambda>args. 0),
     GetInstance = 1,
     FileRef_Create = (\<lambda>h fs p. case p of Valid str \<Rightarrow> of_nat (length str)
                                        | Dangling str \<Rightarrow> of_nat (length str)),
     FileRef_Query = (\<lambda>h r. if r = 5 then (- 2, 0)
                             else (PP_OK, if r = 2 then PP_FILETYPE_DIRECTORY
                                          else if r = 3 then PP_FILETYPE_REGULAR else 2)),
     FileRef_MakeDirectory = (\<lambda>h r b. PP_OK),
     FileRef_Delete = (\<lambda>h r. PP_OK),
     FileRef_Rename = (\<lambda>h a b. PP_OK),
     FileSystem_IsFileSystem = (\<lambda>h r. r = 5),
     FileSystem_Create = (\<lambda>h i ty. 9),
     FileSystem_Open = (\<lambda>h r sz cc. PP_OK),
     Core_IsMainThread = (\<lambda>h. False),
     Node_Init = (\<lambda>h r flags. if r = 4 then 13 else 0)
   \<rparr>"

text \<open>A fresh object, and objects whose gate has resolved with a given outcome.\<close>

definition state_new :: state where
  "state_new = \<lparr>self = Html5Fs_new, calls = []\<rparr>"

definition state_resolved :: "Error \<Rightarrow> state" where
  "state_resolved e = \<lparr>self = Html5Fs_new\<lparr>filesystem_resource := 5,
       filesystem_open_has_result := True, filesystem_open_error := e\<rparr>, calls = []\<rparr>"

definition state_saved :: state where
  "state_saved = \<lparr>self = \<lparr>prefix = ''/saved'', filesystem_resource = 5,
       filesystem_open_has_result = True, filesystem_open_error = 0\<rparr>, calls = []\<rparr>"


subsection \<open>Vocabulary of the properties\<close>

text \<open>
  The keys the parsing loop compares against, and an entry the loop rejects by itself:
  an unrecognised key, or \<open>type\<close> with a value that is none of the three accepted.
\<close>

definition recognised_key :: "string \<Rightarrow> bool" where
  "recognised_key k =
     (k = ''type'' \<or> k = ''expected_size'' \<or> k = ''filesystem_resource'' \<or> k = ''SOURCE'')"

definition bad_entry :: "string \<times> string \<Rightarrow> bool" where
  "bad_entry kv = (\<not> recognised_key (fst kv) \<or>
     (fst kv = ''type'' \<and> snd kv \<noteq> ''PERSISTENT'' \<and> snd kv \<noteq> ''TEMPORARY'' \<and> snd kv \<noteq> []))"

text \<open>The two requests made for a \<open>filesystem_resource\<close> entry.\<close>

fun is_validation_call :: "pp_call \<Rightarrow> bool" where
  "is_validation_call (Call_FileSystem_IsFileSystem r) = True"
| "is_validation_call (Call_AddRefResource r) = True"
| "is_validation_call c = False"

text \<open>The paths a call names, and how the call hands a full path to \<^verbatim>\<open>Create\<close>.\<close>

fun call_paths :: "'p fs_call \<Rightarrow> 'p list" where
  "call_paths (Op_Access path a_mode) = [path]"
| "call_paths (Op_Open path open_flags) = [path]"
| "call_paths (Op_Mkdir path permissions) = [path]"
| "call_paths (Op_Rmdir path) = [path]"
| "call_paths (Op_Unlink path) = [path]"
| "call_paths (Op_Remove path) = [path]"
| "call_paths (Op_Rename path newpath) = [path, newpath]"

fun call_c_str :: "'p fs_call \<Rightarrow> string \<Rightarrow> c_str" where
  "call_c_str (Op_Rename path newpath) = Dangling"
| "call_c_str c = Valid"

section \<open>Properties\<close>

subsection \<open>Facts shared by several properties\<close>

lemmas op_defs = Access_def Open_def Mkdir_def Rmdir_def Unlink_def Remove_def
  RemoveInternal_def Rename_def BlockUntilFilesystemOpen_def

lemma run_call_gate_error:
  assumes "filesystem_open_has_result (self s)" and "filesystem_open_error (self s) \<noteq> 0"
  shows "run_call env c s = Some (filesystem_open_error (self s), s)"
  using assms by (cases c) (simp_all add: op_defs)

lemma run_call_self:
  assumes "run_call env c s = Some (e, s')"
  shows "self s' = self s"
  using assms
  by (cases c)
     (auto simp: op_defs log_call_def Let_def split: if_splits option.splits prod.splits)

lemma run_call_returns:
  assumes "filesystem_open_has_result (self s)"
  shows "\<exists>e s'. run_call env c s = Some (e, s')"
  using assms
  by (cases c)
     (auto simp: op_defs log_call_def Let_def split: if_splits option.splits prod.splits)

subsection \<open>A failed gate short-circuits every operation\<close>

text \<open>
  C1. Once the gate has resolved with a failure, any sequence of calls of the seven
  operations returns the stored gate error for each call and leaves the state as it
  was: the object is unchanged and no request has been added to the log of requests
  sent to the storage service. Since the state is unchanged, this repeats for every
  later call.
\<close>

theorem gate_failure_short_circuits:
  assumes "filesystem_open_has_result (self s)" and "filesystem_open_error (self s) \<noteq> 0"
  shows "run_calls env cs s = Some (replicate (length cs) (filesystem_open_error (self s)), s)"
  using assms by (induction cs) (simp_all add: run_call_gate_error)

theorem gate_failure_short_circuits_witness:
  "run_calls demo_env
     [Op_Access ''/a'' 4, Op_Open ''/a'' 0, Op_Mkdir ''/d'' 493, Op_Rmdir ''/d'',
      Op_Unlink ''/a'', Op_Remove ''/a'', Op_Rename ''/a'' ''/b''] (state_resolved 5)
   = Some ([5, 5, 5, 5, 5, 5, 5], state_resolved 5)"
  using gate_failure_short_circuits [of "state_resolved 5" demo_env
     "[Op_Access ''/a'' 4, Op_Open ''/a'' 0, Op_Mkdir ''/d'' 493, Op_Rmdir ''/d'',
      Op_Unlink ''/a'', Op_Remove ''/a'', Op_Rename ''/a'' ''/b'']"]
  by (simp add: state_resolved_def)

subsection \<open>The stored outcome of the gate\<close>

text \<open>
  C3, as the specification states it, fails: the completion handler stores the
  translation of its result whenever it runs. Resolving a fresh object with success
  and then once more with the native failure code \<open>-2\<close> changes what the gate
  returns from 0 to 5.
\<close>

theorem gate_second_resolution_counterexample:
  "map_option fst (BlockUntilFilesystemOpen (FilesystemOpenCallback demo_env 0 state_new)) = Some 0
   \<and> map_option fst (BlockUntilFilesystemOpen
         (FilesystemOpenCallback demo_env (- 2) (FilesystemOpenCallback demo_env 0 state_new))) = Some 5"
  by (simp add: BlockUntilFilesystemOpen_def FilesystemOpenCallback_def demo_env_def PP_OK_def)

lemma run_calls_stable:
  assumes "filesystem_open_has_result (self s)"
  shows "\<exists>es s'. run_calls env cs s = Some (es, s') \<and> self s' = self s"
  using assms
proof (induction cs arbitrary: s)
  case Nil
  then show ?case by simp
next
  case (Cons c cs)
  from run_call_returns [OF Cons.prems] obtain e s1 where r: "run_call env c s = Some (e, s1)"
    by blast
  then have eq: "self s1 = self s" by (rule run_call_self)
  with Cons.prems have "filesystem_open_has_result (self s1)" by simp
  from Cons.IH [OF this] obtain es s2 where "run_calls env cs s1 = Some (es, s2)" "self s2 = self s1"
    by blast
  with r eq show ?case by simp
qed

text \<open>
  C3, amended. Once the gate has resolved, waiting on it returns the stored outcome
  and changes nothing; every sequence of the seven operations returns and leaves the
  object, and so the outcome seen by the next caller of the gate, as it was. The
  completion handler is not guarded: whenever it runs, the gate afterwards returns the
  translation of the handler's own result.
\<close>

theorem gate_outcome_stable:
  assumes "filesystem_open_has_result (self s)"
  shows "BlockUntilFilesystemOpen s = Some (filesystem_open_error (self s), s)
    \<and> (\<exists>es s'. run_calls env cs s = Some (es, s') \<and> self s' = self s
          \<and> BlockUntilFilesystemOpen s' = Some (filesystem_open_error (self s), s'))
    \<and> map_option fst (BlockUntilFilesystemOpen (FilesystemOpenCallback env result s))
        = Some (PPErrorToErrno env result)"
proof -
  from run_calls_stable [OF assms] obtain es s' where
    "run_calls env cs s = Some (es, s')" "self s' = self s" by blast
  with assms show ?thesis
    by (simp add: BlockUntilFilesystemOpen_def FilesystemOpenCallback_def)
qed

theorem gate_outcome_stable_witness:
  "BlockUntilFilesystemOpen (state_resolved 0) = Some (0, state_resolved 0)
   \<and> (\<exists>es s'. run_calls demo_env [Op_Mkdir ''/d'' 493, Op_Unlink ''/fa''] (state_resolved 0) = Some (es, s')
         \<and> self s' = self (state_resolved 0)
         \<and> BlockUntilFilesystemOpen s' = Some (0, s'))
   \<and> map_option fst (BlockUntilFilesystemOpen (FilesystemOpenCallback demo_env (- 2) (state_resolved 0)))
        = Some 5"
  using gate_outcome_stable [of "state_resolved 0" demo_env "[Op_Mkdir ''/d'' 493, Op_Unlink ''/fa'']" "- 2"]
  by (simp add: state_resolved_def demo_env_def PP_OK_def)

subsection \<open>Creating the root directory\<close>

text \<open>
  C4, as the specification states it, fails: \<open>Mkdir\<close> asks the gate before it looks at
  the path. With the gate resolved to error 5, creating the root returns 5, which is
  not \<^verbatim>\<open>EEXIST\<close>.
\<close>

theorem mkdir_root_counterexample:
  "Path_IsRoot demo_env ''/'' \<and> Mkdir demo_env ''/'' 493 (state_resolved 5) = Some (5, state_resolved 5)
   \<and> (5 :: int) \<noteq> EEXIST"
  by (simp add: Mkdir_def BlockUntilFilesystemOpen_def state_resolved_def demo_env_def EEXIST_def)

text \<open>
  C4, amended. For every permissions argument, \<open>Mkdir\<close> on a root path with the gate
  resolved returns \<^verbatim>\<open>EEXIST\<close> when the gate's outcome is success and the gate's error
  otherwise; in both cases the state, with its log of requests, is unchanged.
\<close>

theorem mkdir_root:
  assumes "Path_IsRoot env path" and "filesystem_open_has_result (self s)"
  shows "Mkdir env path permissions s =
    Some (if filesystem_open_error (self s) = 0 then EEXIST else filesystem_open_error (self s), s)"
  using assms by (simp add: Mkdir_def BlockUntilFilesystemOpen_def)

theorem mkdir_root_witness:
  "Path_IsRoot demo_env ''/'' \<and> filesystem_open_has_result (self (state_resolved 0))
   \<and> Mkdir demo_env ''/'' 493 (state_resolved 0) = Some (EEXIST, state_resolved 0)"
proof -
  have r: "Path_IsRoot demo_env ''/''" by (simp add: demo_env_def)
  have g: "filesystem_open_has_result (self (state_resolved 0))" by (simp add: state_resolved_def)
  have e: "filesystem_open_error (self (state_resolved 0)) = 0" by (simp add: state_resolved_def)
  from mkdir_root [OF r g, of 493] e r g show ?thesis by simp
qed

subsection \<open>Access and Open\<close>

text \<open>
  C9. For every path and mode, \<open>Access\<close> returns what \<open>Open\<close> returns for the same path
  with read-only flags, whatever the caller's slot held, the node being dropped; two
  calls that differ only in the mode return the same.
\<close>

theorem access_is_open_rdonly:
  "Access env path a_mode s = snd (Open env path O_RDONLY out_node s)
   \<and> Access env path a_mode s = Access env path a_mode' s"
  by (simp add: Access_def Open_def)

text \<open>
  C10. What the caller's slot held before \<open>Open\<close> has no influence. The slot is empty
  when the call stops at the gate and after every return with an error (gate error, no
  entry reference, failed node initialisation); it holds a node only after a return
  with success.
\<close>

theorem open_out_node:
  "Open env path open_flags out_node s = Open env path open_flags None s
   \<and> (snd (Open env path open_flags out_node s) = None
        \<longrightarrow> fst (Open env path open_flags out_node s) = None)
   \<and> (\<forall>e s'. snd (Open env path open_flags out_node s) = Some (e, s') \<longrightarrow>
         (e \<noteq> 0 \<longrightarrow> fst (Open env path open_flags out_node s) = None)
         \<and> (fst (Open env path open_flags out_node s) \<noteq> None \<longrightarrow> e = 0))"
  by (auto simp: Open_def BlockUntilFilesystemOpen_def Let_def ENOENT_def
        split: option.splits if_splits prod.splits)

lemmas demo_eval = op_defs state_resolved_def state_new_def Html5Fs_new_def
  demo_env_def GetFullPath_def log_call_def PP_OK_def

theorem open_out_node_witness:
  "Open demo_env ''/ab'' 0 (Some (Html5FsNode 77)) (state_resolved 0)
     = (Some (Html5FsNode 3),
        Some (0, (state_resolved 0)\<lparr>calls := [Call_FileRef_Create 5 (Valid ''/ab''), Call_Node_Init 3 0]\<rparr>))
   \<and> Open demo_env ''/abc'' 0 (Some (Html5FsNode 77)) (state_resolved 0)
     = (None,
        Some (13, (state_resolved 0)\<lparr>calls := [Call_FileRef_Create 5 (Valid ''/abc''), Call_Node_Init 4 0]\<rparr>))
   \<and> Open demo_env ''/ab'' 0 (Some (Html5FsNode 77)) state_new = (None, None)"
proof -
  have a: "Open demo_env ''/ab'' 0 (Some (Html5FsNode 77)) (state_resolved 0)
     = (Some (Html5FsNode 3),
        Some (0, (state_resolved 0)\<lparr>calls := [Call_FileRef_Create 5 (Valid ''/ab''), Call_Node_Init 3 0]\<rparr>))"
    by (simp add: demo_eval)
  have b: "Open demo_env ''/abc'' 0 (Some (Html5FsNode 77)) (state_resolved 0)
     = (None,
        Some (13, (state_resolved 0)\<lparr>calls := [Call_FileRef_Create 5 (Valid ''/abc''), Call_Node_Init 4 0]\<rparr>))"
    by (simp add: demo_eval)
  have c: "Open demo_env ''/ab'' 0 (Some (Html5FsNode 77)) state_new = (None, None)"
    by (simp add: demo_eval)
  from open_out_node [of demo_env "''/ab''" 0 "Some (Html5FsNode 77)" "state_resolved 0"]
       open_out_node [of demo_env "''/abc''" 0 "Some (Html5FsNode 77)" "state_resolved 0"]
       open_out_node [of demo_env "''/ab''" 0 "Some (Html5FsNode 77)" state_new]
       a b c
  show ?thesis by blast
qed

subsection \<open>The type policy of unlink, rmdir and remove\<close>

lemma REMOVE_simps:
  "REMOVE_FILE \<noteq> REMOVE_ALL" "REMOVE_DIR \<noteq> REMOVE_ALL"
  "and REMOVE_FILE REMOVE_DIR = 0" "and REMOVE_DIR REMOVE_FILE = 0"
  "REMOVE_FILE \<noteq> 0" "REMOVE_DIR \<noteq> 0"
  by (simp_all add: REMOVE_FILE_def REMOVE_DIR_def REMOVE_ALL_def)

text \<open>
  C2. With the gate resolved to success and an entry reference obtained for the path,
  let the type query answer \<open>(query_result, file_type)\<close>. \<open>Unlink\<close> and \<open>Rmdir\<close> return
  \<^verbatim>\<open>EINVAL\<close> when the query failed; otherwise \<open>Unlink\<close> returns \<^verbatim>\<open>EISDIR\<close> on a directory
  and \<open>Rmdir\<close> returns \<^verbatim>\<open>ENOTDIR\<close> on a regular file, both return \<^verbatim>\<open>EINVAL\<close> on any other
  type, and each deletes the type it is meant for. \<open>Remove\<close> sends no query: its
  requests are the reference creation and the delete, whatever the entry is.
\<close>

theorem remove_type_policy:
  assumes gate: "filesystem_open_has_result (self s)" "filesystem_open_error (self s) = 0"
    and ref: "FileRef_Create env (calls s) (filesystem_resource (self s))
                (Valid (Path_Join env (GetFullPath env s path))) = fileref" "fileref \<noteq> 0"
    and s1: "s1 = log_call (Call_FileRef_Create (filesystem_resource (self s))
                (Valid (Path_Join env (GetFullPath env s path)))) s"
    and q: "FileRef_Query env (calls s1) fileref = (query_result, file_type)"
    and s2: "s2 = log_call (Call_FileRef_Query fileref) s1"
  shows "Unlink env path s =
           (if query_result \<noteq> PP_OK then Some (EINVAL, s2)
            else if file_type = PP_FILETYPE_DIRECTORY then Some (EISDIR, s2)
            else if file_type = PP_FILETYPE_REGULAR then
              Some (if FileRef_Delete env (calls s2) fileref \<noteq> PP_OK
                    then PPErrorToErrno env (FileRef_Delete env (calls s2) fileref) else 0,
                    log_call (Call_FileRef_Delete fileref) s2)
            else Some (EINVAL, s2))
       \<and> Rmdir env path s =
           (if query_result \<noteq> PP_OK then Some (EINVAL, s2)
            else if file_type = PP_FILETYPE_DIRECTORY then
              Some (if FileRef_Delete env (calls s2) fileref \<noteq> PP_OK
                    then PPErrorToErrno env (FileRef_Delete env (calls s2) fileref) else 0,
                    log_call (Call_FileRef_Delete fileref) s2)
            else if file_type = PP_FILETYPE_REGULAR then Some (ENOTDIR, s2)
            else Some (EINVAL, s2))
       \<and> Remove env path s =
           Some (if FileRef_Delete env (calls s1) fileref \<noteq> PP_OK
                 then PPErrorToErrno env (FileRef_Delete env (calls s1) fileref) else 0,
                 log_call (Call_FileRef_Delete fileref) s1)"
proof -
  have u: "Unlink env path s =
           (if query_result \<noteq> PP_OK then Some (EINVAL, s2)
            else if file_type = PP_FILETYPE_DIRECTORY then Some (EISDIR, s2)
            else if file_type = PP_FILETYPE_REGULAR then
              Some (if FileRef_Delete env (calls s2) fileref \<noteq> PP_OK
                    then PPErrorToErrno env (FileRef_Delete env (calls s2) fileref) else 0,
                    log_call (Call_FileRef_Delete fileref) s2)
            else Some (EINVAL, s2))"
    using assms
    by (simp add: Unlink_def RemoveInternal_def BlockUntilFilesystemOpen_def
        REMOVE_simps Let_def PP_FILETYPE_DIRECTORY_def PP_FILETYPE_REGULAR_def)
  have r: "Rmdir env path s =
           (if query_result \<noteq> PP_OK then Some (EINVAL, s2)
            else if file_type = PP_FILETYPE_DIRECTORY then
              Some (if FileRef_Delete env (calls s2) fileref \<noteq> PP_OK
                    then PPErrorToErrno env (FileRef_Delete env (calls s2) fileref) else 0,
                    log_call (Call_FileRef_Delete fileref) s2)
            else if file_type = PP_FILETYPE_REGULAR then Some (ENOTDIR, s2)
            else Some (EINVAL, s2))"
    using assms
    by (simp add: Rmdir_def RemoveInternal_def BlockUntilFilesystemOpen_def
        REMOVE_simps Let_def PP_FILETYPE_DIRECTORY_def PP_FILETYPE_REGULAR_def)
  have a: "Remove env path s =
           Some (if FileRef_Delete env (calls s1) fileref \<noteq> PP_OK
                 then PPErrorToErrno env (FileRef_Delete env (calls s1) fileref) else 0,
                 log_call (Call_FileRef_Delete fileref) s1)"
    using gate ref s1
    by (simp add: Remove_def RemoveInternal_def BlockUntilFilesystemOpen_def Let_def)
  from u r a show ?thesis by simp
qed

theorem remove_type_policy_witness:
  "Unlink demo_env ''/d'' (state_resolved 0)
     = Some (EISDIR, (state_resolved 0)\<lparr>calls := [Call_FileRef_Create 5 (Valid ''/d''),
                                                    Call_FileRef_Query 2]\<rparr>)
   \<and> Rmdir demo_env ''/fa'' (state_resolved 0)
     = Some (ENOTDIR, (state_resolved 0)\<lparr>calls := [Call_FileRef_Create 5 (Valid ''/fa''),
                                                     Call_FileRef_Query 3]\<rparr>)
   \<and> Remove demo_env ''/d'' (state_resolved 0)
     = Some (0, (state_resolved 0)\<lparr>calls := [Call_FileRef_Create 5 (Valid ''/d''),
                                              Call_FileRef_Delete 2]\<rparr>)"
proof -
  let ?s = "state_resolved 0"
  have g: "filesystem_open_has_result (self ?s)" "filesystem_open_error (self ?s) = 0"
    by (simp_all add: state_resolved_def)
  have fs: "filesystem_resource (self ?s) = 5" "calls ?s = []"
    by (simp_all add: state_resolved_def Html5Fs_new_def)
  have p: "Path_Join demo_env (GetFullPath demo_env ?s path) = path" for path
    by (simp add: GetFullPath_def demo_env_def state_resolved_def Html5Fs_new_def)
  have c1: "FileRef_Create demo_env (calls ?s) (filesystem_resource (self ?s))
              (Valid (Path_Join demo_env (GetFullPath demo_env ?s ''/d''))) = 2"
    by (simp add: p) (simp add: demo_env_def)
  have c2: "FileRef_Create demo_env (calls ?s) (filesystem_resource (self ?s))
              (Valid (Path_Join demo_env (GetFullPath demo_env ?s ''/fa''))) = 3"
    by (simp add: p) (simp add: demo_env_def)
  have n: "(2 :: PP_Resource) \<noteq> 0" "(3 :: PP_Resource) \<noteq> 0" by simp_all
  have q1: "FileRef_Query demo_env h 2 = (PP_OK, PP_FILETYPE_DIRECTORY)" for h
    by (simp add: demo_env_def)
  have q2: "FileRef_Query demo_env h 3 = (PP_OK, PP_FILETYPE_REGULAR)" for h
    by (simp add: demo_env_def)
  have d: "FileRef_Delete demo_env h r = PP_OK" for h r
    by (simp add: demo_env_def)
  have t: "PP_FILETYPE_REGULAR \<noteq> PP_FILETYPE_DIRECTORY"
    by (simp add: PP_FILETYPE_REGULAR_def PP_FILETYPE_DIRECTORY_def)
  from remove_type_policy [OF g c1 n(1) refl q1 refl]
  have 1: "Unlink demo_env ''/d'' ?s
     = Some (EISDIR, ?s\<lparr>calls := [Call_FileRef_Create 5 (Valid ''/d''), Call_FileRef_Query 2]\<rparr>)"
    and 3: "Remove demo_env ''/d'' ?s
     = Some (0, ?s\<lparr>calls := [Call_FileRef_Create 5 (Valid ''/d''), Call_FileRef_Delete 2]\<rparr>)"
    by (simp_all add: p fs d log_call_def)
  from remove_type_policy [OF g c2 n(2) refl q2 refl]
  have 2: "Rmdir demo_env ''/fa'' ?s
     = Some (ENOTDIR, ?s\<lparr>calls := [Call_FileRef_Create 5 (Valid ''/fa''), Call_FileRef_Query 3]\<rparr>)"
    by (simp add: p fs t log_call_def)
  from 1 2 3 show ?thesis by simp
qed

subsection \<open>Rename\<close>

text \<open>
  The control flow of \<open>Rename\<close> once the gate has passed, in terms of what the service
  answers to the two pointers \<open>Rename\<close> hands it: without the first reference it returns
  \<^verbatim>\<open>ENOENT\<close> after one request, without the second after two, and only with both is the
  rename request sent, the first reference as source and the second as destination.
\<close>

lemma rename_references:
  assumes gate: "filesystem_open_has_result (self s)" "filesystem_open_error (self s) = 0"
    and old: "old_request = Call_FileRef_Create (filesystem_resource (self s))
                (Dangling (Path_Join env (GetFullPath env s path)))"
             "FileRef_Create env (calls s) (filesystem_resource (self s))
                (Dangling (Path_Join env (GetFullPath env s path))) = fileref"
    and new: "new_request = Call_FileRef_Create (filesystem_resource (self s))
                (Dangling (Path_Join env (GetFullPath env s newpath)))"
             "FileRef_Create env (calls s @ [old_request]) (filesystem_resource (self s))
                (Dangling (Path_Join env (GetFullPath env s newpath))) = new_fileref"
    and res: "FileRef_Rename env (calls s @ [old_request, new_request]) fileref new_fileref = result"
  shows "Rename env path newpath s =
           (if fileref = 0 then Some (ENOENT, s\<lparr>calls := calls s @ [old_request]\<rparr>)
            else if new_fileref = 0 then
              Some (ENOENT, s\<lparr>calls := calls s @ [old_request, new_request]\<rparr>)
            else Some (if result \<noteq> PP_OK then PPErrorToErrno env result else 0,
                       s\<lparr>calls := calls s @ [old_request, new_request,
                                                Call_FileRef_Rename fileref new_fileref]\<rparr>))"
  using assms
  by (simp add: Rename_def BlockUntilFilesystemOpen_def Let_def log_call_def GetFullPath_def)

lemma rename_references_demo:
  "Rename demo_env ''/a'' [] (state_resolved 0)
     = Some (ENOENT, (state_resolved 0)\<lparr>calls := [Call_FileRef_Create 5 (Dangling ''/a''),
                                                    Call_FileRef_Create 5 (Dangling [])]\<rparr>)
   \<and> Rename demo_env ''/a'' ''/bc'' (state_resolved 0)
     = Some (0, (state_resolved 0)\<lparr>calls := [Call_FileRef_Create 5 (Dangling ''/a''),
                                              Call_FileRef_Create 5 (Dangling ''/bc''),
                                              Call_FileRef_Rename 2 3]\<rparr>)"
proof -
  let ?s = "state_resolved 0"
  have g: "filesystem_open_has_result (self ?s)" "filesystem_open_error (self ?s) = 0"
    by (simp_all add: state_resolved_def)
  have fs: "filesystem_resource (self ?s) = 5" "calls ?s = []" "prefix (self ?s) = []"
    by (simp_all add: state_resolved_def Html5Fs_new_def)
  have p: "Path_Join demo_env (GetFullPath demo_env ?s path) = path" for path
    by (simp add: GetFullPath_def demo_env_def fs)
  have c: "FileRef_Create demo_env h r (Dangling str) = of_nat (length str)" for h r str
    by (simp add: demo_env_def)
  have r: "FileRef_Rename demo_env h a b = PP_OK" for h a b
    by (simp add: demo_env_def)
  from rename_references [OF g refl refl refl refl refl, of demo_env "''/a''" "[]"]
  have 1: "Rename demo_env ''/a'' [] ?s
     = Some (ENOENT, ?s\<lparr>calls := [Call_FileRef_Create 5 (Dangling ''/a''),
                                    Call_FileRef_Create 5 (Dangling [])]\<rparr>)"
    by (simp add: p c fs)
  from rename_references [OF g refl refl refl refl refl, of demo_env "''/a''" "''/bc''"]
  have 2: "Rename demo_env ''/a'' ''/bc'' ?s
     = Some (0, ?s\<lparr>calls := [Call_FileRef_Create 5 (Dangling ''/a''),
                              Call_FileRef_Create 5 (Dangling ''/bc''),
                              Call_FileRef_Rename 2 3]\<rparr>)"
    by (simp add: p c r fs)
  from 1 2 show ?thesis by simp
qed


subsection \<open>The full path handed to the storage service\<close>

text \<open>
  Every operation sends, for each path it names, the joined result of prepending the
  prefix, on the filesystem resource of the object. All operations but \<open>Rename\<close> pass
  it as a pointer into a live string; \<open>Rename\<close> passes pointers whose strings are gone.
\<close>

lemma create_requests:
  assumes "run_call env c s = Some (e, s')"
  shows "\<exists>d. calls s' = calls s @ d \<and>
           (\<forall>r p. Call_FileRef_Create r p \<in> set d \<longrightarrow>
              r = filesystem_resource (self s) \<and>
              (\<exists>path \<in> set (call_paths c).
                 p = call_c_str c (Path_Join env (Path_Prepend env (prefix (self s)) path))))"
  using assms
  by (cases c)
     (auto simp: op_defs log_call_def Let_def GetFullPath_def
        split: if_splits option.splits prod.splits)

text \<open>
  C5 at \<open>rename("/a", "/b")\<close> under the prefix \<open>/saved\<close>: both reference requests carry
  a pointer into a destroyed temporary, not a string equal to the prefixed path.
\<close>

theorem rename_passes_dangling_path:
  "Rename demo_env ''/a'' ''/b'' state_saved
     = Some (0, state_saved\<lparr>calls := [Call_FileRef_Create 5 (Dangling ''/saved/a''),
                                       Call_FileRef_Create 5 (Dangling ''/saved/b''),
                                       Call_FileRef_Rename 8 8]\<rparr>)"
  by (simp add: demo_eval state_saved_def)

subsection \<open>Parsing the configuration\<close>

text \<open>One step of the loop for each key it knows, and for any key it does not know.\<close>

lemma parse_type:
  "Init_parse env ((''type'', v) # rest) ft es s =
     (if v = ''PERSISTENT'' then Init_parse env rest PP_FILESYSTEMTYPE_LOCALPERSISTENT es s
      else if v = ''TEMPORARY'' then Init_parse env rest PP_FILESYSTEMTYPE_LOCALTEMPORARY es s
      else if v = [] then Init_parse env rest PP_FILESYSTEMTYPE_LOCALPERSISTENT es s
      else (Some EINVAL, ft, es, s))"
  by simp

lemma parse_expected_size:
  "Init_parse env ((''expected_size'', v) # rest) ft es s = Init_parse env rest ft (strtoull v) s"
  by simp

lemma parse_source:
  "Init_parse env ((''SOURCE'', v) # rest) ft es s =
     Init_parse env rest ft es (s\<lparr>self := (self s)\<lparr>prefix := v\<rparr>\<rparr>)"
  by simp

lemma parse_resource:
  "Init_parse env ((''filesystem_resource'', v) # rest) ft es s =
     (if \<not> FileSystem_IsFileSystem env (calls s) (ucast (strtoull v))
      then (Some EINVAL, ft, es, log_call (Call_FileSystem_IsFileSystem (ucast (strtoull v))) s)
      else Init_parse env rest ft es
             (log_call (Call_AddRefResource (ucast (strtoull v)))
                ((log_call (Call_FileSystem_IsFileSystem (ucast (strtoull v))) s)
                   \<lparr>self := (self (log_call (Call_FileSystem_IsFileSystem (ucast (strtoull v))) s))
                       \<lparr>filesystem_resource := ucast (strtoull v)\<rparr>\<rparr>)))"
  by (simp add: Let_def)

lemma parse_unknown:
  "\<not> recognised_key k \<Longrightarrow> Init_parse env ((k, v) # rest) ft es s = (Some EINVAL, ft, es, s)"
  by (simp add: recognised_key_def)

lemmas parse_steps = parse_type parse_expected_size parse_source parse_resource parse_unknown

declare Init_parse.simps(2) [simp del]

lemma key_cases:
  obtains (type) "k = ''type''" | (size) "k = ''expected_size''"
    | (resource) "k = ''filesystem_resource''" | (source) "k = ''SOURCE''"
    | (unknown) "\<not> recognised_key k"
  unfolding recognised_key_def by blast

lemma good_entry_type:
  "\<not> bad_entry (''type'', v) \<Longrightarrow> v = ''PERSISTENT'' \<or> v = ''TEMPORARY'' \<or> v = []"
  by (auto simp: bad_entry_def)

lemma good_entry_key: "\<not> bad_entry (k, v) \<Longrightarrow> recognised_key k"
  by (simp add: bad_entry_def)

lemma Init_parse_bad_entry:
  assumes "\<exists>kv \<in> set m. bad_entry kv"
  shows "fst (Init_parse env m ft es s) = Some EINVAL"
  using assms
proof (induction m arbitrary: ft es s)
  case Nil
  then show ?case by simp
next
  case (Cons a m)
  obtain k v where a: "a = (k, v)" by (cases a)
  have IH: "fst (Init_parse env m ft' es' s') = Some EINVAL" if "\<not> bad_entry (k, v)" for ft' es' s'
    using Cons.IH Cons.prems that a by auto
  show ?case
  proof (cases k rule: key_cases)
    case type
    then show ?thesis using IH by (auto simp: a parse_type bad_entry_def recognised_key_def)
  next
    case size
    then show ?thesis using IH by (simp add: a parse_expected_size bad_entry_def recognised_key_def)
  next
    case resource
    then show ?thesis using IH by (simp add: a parse_resource bad_entry_def recognised_key_def)
  next
    case source
    then show ?thesis using IH by (simp add: a parse_source bad_entry_def recognised_key_def)
  next
    case unknown
    then show ?thesis by (simp add: a parse_unknown)
  qed
qed

lemma Init_parse_calls:
  "\<exists>d. calls (snd (snd (snd (Init_parse env m ft es s)))) = calls s @ d
       \<and> list_all is_validation_call d
       \<and> (''filesystem_resource'' \<notin> fst ` set m \<longrightarrow> d = [])"
proof (induction m arbitrary: ft es s)
  case Nil
  then show ?case by simp
next
  case (Cons a m)
  obtain k v where a: "a = (k, v)" by (cases a)
  show ?case
  proof (cases k rule: key_cases)
    case type
    then show ?thesis using Cons.IH by (simp add: a parse_type)
  next
    case size
    then show ?thesis using Cons.IH by (simp add: a parse_expected_size)
  next
    case source
    then show ?thesis using Cons.IH [of ft es "s\<lparr>self := (self s)\<lparr>prefix := v\<rparr>\<rparr>"]
      by (simp add: a parse_source)
  next
    case unknown
    then show ?thesis by (simp add: a parse_unknown)
  next
    case resource
    let ?r = "ucast (strtoull v) :: PP_Resource"
    let ?s1 = "log_call (Call_AddRefResource ?r)
                 ((log_call (Call_FileSystem_IsFileSystem ?r) s)
                    \<lparr>self := (self (log_call (Call_FileSystem_IsFileSystem ?r) s))\<lparr>filesystem_resource := ?r\<rparr>\<rparr>)"
    from Cons.IH [of ft es ?s1] obtain d where
      d: "calls (snd (snd (snd (Init_parse env m ft es ?s1)))) = calls ?s1 @ d"
         "list_all is_validation_call d" by blast
    have c: "calls ?s1 = calls s @ [Call_FileSystem_IsFileSystem ?r, Call_AddRefResource ?r]"
      by (simp add: log_call_def)
    show ?thesis
    proof (cases "FileSystem_IsFileSystem env (calls s) ?r")
      case False
      with resource show ?thesis by (simp add: a parse_resource log_call_def)
    next
      case True
      with resource d c show ?thesis by (simp add: a parse_resource)
    qed
  qed
qed

text \<open>
  The requests of the loop on a map in key order: none without a \<open>filesystem_resource\<close>
  entry or when a rejected entry comes before it; otherwise the validation of that
  entry's identifier, followed by the add-reference when the service accepts it.
\<close>

lemma Init_parse_log:
  assumes "sorted_wrt (<) (map fst m)"
  shows "calls (snd (snd (snd (Init_parse env m ft es s)))) = calls s @
     (case map_of m ''filesystem_resource'' of
        None \<Rightarrow> []
      | Some v \<Rightarrow>
          if \<exists>kv \<in> set m. bad_entry kv \<and> fst kv < ''filesystem_resource'' then []
          else if FileSystem_IsFileSystem env (calls s) (ucast (strtoull v))
          then [Call_FileSystem_IsFileSystem (ucast (strtoull v)),
                Call_AddRefResource (ucast (strtoull v))]
          else [Call_FileSystem_IsFileSystem (ucast (strtoull v))])"
  using assms
proof (induction m arbitrary: ft es s)
  case Nil
  then show ?case by simp
next
  case (Cons a m)
  obtain k w where a: "a = (k, w)" by (cases a)
  from Cons.prems a have above: "\<forall>kv \<in> set m. k < fst kv" and sorted: "sorted_wrt (<) (map fst m)"
    by auto
  show ?case
  proof (cases "k = ''filesystem_resource''")
    case True
    from above True have none: "''filesystem_resource'' \<notin> fst ` set m" by auto
    from above True have later: "\<not> (\<exists>kv \<in> set ((k, w) # m). bad_entry kv \<and> fst kv < ''filesystem_resource'')"
      by (auto simp: less_le_not_le dest: less_imp_le)
    let ?r = "ucast (strtoull w) :: PP_Resource"
    let ?s1 = "log_call (Call_AddRefResource ?r)
                 ((log_call (Call_FileSystem_IsFileSystem ?r) s)
                    \<lparr>self := (self (log_call (Call_FileSystem_IsFileSystem ?r) s))\<lparr>filesystem_resource := ?r\<rparr>\<rparr>)"
    from Init_parse_calls [of env m ft es ?s1] none
    have rest: "calls (snd (snd (snd (Init_parse env m ft es ?s1)))) = calls ?s1" by auto
    have c: "calls ?s1 = calls s @ [Call_FileSystem_IsFileSystem ?r, Call_AddRefResource ?r]"
      by (simp add: log_call_def)
    have m: "map_of ((k, w) # m) ''filesystem_resource'' = Some w" using True by simp
    show ?thesis
    proof (cases "FileSystem_IsFileSystem env (calls s) ?r")
      case False
      have "Init_parse env ((k, w) # m) ft es s
              = (Some EINVAL, ft, es, log_call (Call_FileSystem_IsFileSystem ?r) s)"
        using True False by (simp add: parse_resource)
      with False later show ?thesis unfolding a m by (simp add: log_call_def)
    next
      case valid: True
      have "Init_parse env ((k, w) # m) ft es s = Init_parse env m ft es ?s1"
        using True valid by (simp add: parse_resource)
      with valid later rest c show ?thesis unfolding a m by simp
    qed
  next
    case False
    then have mo: "map_of ((k, w) # m) ''filesystem_resource'' = map_of m ''filesystem_resource''"
      by simp
    show ?thesis
    proof (cases "bad_entry (k, w)")
      case True
      have "Init_parse env ((k, w) # m) ft es s = (Some EINVAL, ft, es, s)"
      proof (cases k rule: key_cases)
        case type
        with True show ?thesis by (auto simp: parse_type bad_entry_def recognised_key_def)
      next
        case size
        with True show ?thesis by (simp add: bad_entry_def recognised_key_def)
      next
        case resource
        with False show ?thesis by simp
      next
        case source
        with True show ?thesis by (simp add: bad_entry_def recognised_key_def)
      next
        case unknown
        then show ?thesis by (simp add: parse_unknown)
      qed
      then have l: "calls (snd (snd (snd (Init_parse env ((k, w) # m) ft es s)))) = calls s"
        by simp
      show ?thesis
      proof (cases "map_of m ''filesystem_resource''")
        case None
        with l show ?thesis unfolding a mo by simp
      next
        case (Some v)
        then have "(''filesystem_resource'', v) \<in> set m" by (rule map_of_SomeD)
        with above have "k < ''filesystem_resource''" by force
        with True have "\<exists>kv \<in> set ((k, w) # m). bad_entry kv \<and> fst kv < ''filesystem_resource''"
          by simp
        with l Some show ?thesis unfolding a mo by simp
      qed
    next
      case good: False
      have ex: "(\<exists>kv \<in> set ((k, w) # m). bad_entry kv \<and> fst kv < ''filesystem_resource'')
                = (\<exists>kv \<in> set m. bad_entry kv \<and> fst kv < ''filesystem_resource'')"
        using good by simp
      have "\<exists>ft' es' s'. Init_parse env ((k, w) # m) ft es s = Init_parse env m ft' es' s'
              \<and> calls s' = calls s"
      proof (cases k rule: key_cases)
        case type
        with good_entry_type good have "w = ''PERSISTENT'' \<or> w = ''TEMPORARY'' \<or> w = []" by blast
        then show ?thesis using type by (auto simp: parse_type)
      next
        case size
        then show ?thesis by (auto simp: parse_expected_size)
      next
        case resource
        with False show ?thesis by simp
      next
        case source
        then have "Init_parse env ((k, w) # m) ft es s
                     = Init_parse env m ft es (s\<lparr>self := (self s)\<lparr>prefix := w\<rparr>\<rparr>)"
          by (simp add: parse_source)
        moreover have "calls (s\<lparr>self := (self s)\<lparr>prefix := w\<rparr>\<rparr>) = calls s" by simp
        ultimately show ?thesis by blast
      next
        case unknown
        with good good_entry_key show ?thesis by blast
      qed
      then obtain ft' es' s' where
        step: "Init_parse env ((k, w) # m) ft es s = Init_parse env m ft' es' s'"
        and same: "calls s' = calls s" by blast
      note ih = Cons.IH [OF sorted, of ft' es' s', unfolded same]
      show ?thesis unfolding a mo ex step by (rule ih)
    qed
  qed
qed

lemmas init_eval = Init_def parse_steps strtoull_def isspace_def isdigit_def log_call_def
  demo_env_def state_new_def Html5Fs_new_def PP_OK_def

text \<open>
  C6, as the specification states it, fails: the map is visited in key order, and a
  \<open>filesystem_resource\<close> entry that precedes the rejected entry is validated first.
  Here the handle 5 is checked and retained before the unknown key \<open>zoom\<close> is met.
\<close>

theorem init_bad_configuration_counterexample:
  "string_map_ok [(''filesystem_resource'', ''5''), (''zoom'', ''1'')]
   \<and> \<not> recognised_key ''zoom''
   \<and> Init demo_env \<lparr>string_map = [(''filesystem_resource'', ''5''), (''zoom'', ''1'')], ppapi = True\<rparr> state_new
       = (EINVAL, \<lparr>self = Html5Fs_new\<lparr>filesystem_resource := 5\<rparr>,
                  calls = [Call_FileSystem_IsFileSystem 5, Call_AddRefResource 5]\<rparr>)"
proof -
  have a: "string_map_ok [(''filesystem_resource'', ''5''), (''zoom'', ''1'')]"
    by (simp add: string_map_ok_def)
  have b: "\<not> recognised_key ''zoom''"
    by (simp add: recognised_key_def)
  have c: "Init demo_env \<lparr>string_map = [(''filesystem_resource'', ''5''), (''zoom'', ''1'')], ppapi = True\<rparr> state_new
       = (EINVAL, \<lparr>self = Html5Fs_new\<lparr>filesystem_resource := 5\<rparr>,
                  calls = [Call_FileSystem_IsFileSystem 5, Call_AddRefResource 5]\<rparr>)"
    by (simp add: init_eval b)
  from a b c show ?thesis by simp
qed

text \<open>
  C6, amended. When the base initialisation succeeded and a Pepper interface was
  supplied, a map with an unrecognised key, or with \<open>type\<close> mapped to anything but
  \<open>PERSISTENT\<close>, \<open>TEMPORARY\<close> or the empty string, makes \<open>Init\<close> return \<^verbatim>\<open>EINVAL\<close>. It
  has then sent no request at all when the map has no \<open>filesystem_resource\<close> entry or
  when a rejected key sorts before \<open>filesystem_resource\<close>. Otherwise it has sent
  exactly the validation of that entry's identifier, followed by the add-reference of
  the same identifier when the service accepted it: never a create or an open.
\<close>

theorem init_bad_configuration:
  assumes "Filesystem_Init env args = 0" and "ppapi args"
    and "string_map_ok (string_map args)"
    and "\<exists>kv \<in> set (string_map args). bad_entry kv"
  shows "fst (Init env args s) = EINVAL
    \<and> calls (snd (Init env args s)) = calls s @
        (case map_of (string_map args) ''filesystem_resource'' of
           None \<Rightarrow> []
         | Some v \<Rightarrow>
             if \<exists>kv \<in> set (string_map args). bad_entry kv \<and> fst kv < ''filesystem_resource''
             then []
             else if FileSystem_IsFileSystem env (calls s) (ucast (strtoull v))
             then [Call_FileSystem_IsFileSystem (ucast (strtoull v)),
                   Call_AddRefResource (ucast (strtoull v))]
             else [Call_FileSystem_IsFileSystem (ucast (strtoull v))])"
proof -
  obtain r ft es s1 where
    p: "Init_parse env (string_map args) PP_FILESYSTEMTYPE_LOCALPERSISTENT 0 s = (r, ft, es, s1)"
    by (cases "Init_parse env (string_map args) PP_FILESYSTEMTYPE_LOCALPERSISTENT 0 s")
  from Init_parse_bad_entry [OF assms(4), of env PP_FILESYSTEMTYPE_LOCALPERSISTENT 0 s] p
  have r: "r = Some EINVAL" by simp
  have i: "Init env args s = (EINVAL, s1)"
    using assms(1,2) by (simp add: Init_def p r)
  from assms(3) have "sorted_wrt (<) (map fst (string_map args))"
    by (simp add: string_map_ok_def)
  from Init_parse_log [OF this, of env PP_FILESYSTEMTYPE_LOCALPERSISTENT 0 s] p
  have "calls s1 = calls s @
        (case map_of (string_map args) ''filesystem_resource'' of
           None \<Rightarrow> []
         | Some v \<Rightarrow>
             if \<exists>kv \<in> set (string_map args). bad_entry kv \<and> fst kv < ''filesystem_resource''
             then []
             else if FileSystem_IsFileSystem env (calls s) (ucast (strtoull v))
             then [Call_FileSystem_IsFileSystem (ucast (strtoull v)),
                   Call_AddRefResource (ucast (strtoull v))]
             else [Call_FileSystem_IsFileSystem (ucast (strtoull v))])"
    by simp
  with i show ?thesis by simp
qed

theorem init_bad_configuration_witness:
  "fst (Init demo_env \<lparr>string_map = [(''SOURCE'', ''/saved''), (''type'', ''BOGUS'')], ppapi = True\<rparr>
          state_new) = EINVAL
   \<and> calls (snd (Init demo_env \<lparr>string_map = [(''SOURCE'', ''/saved''), (''type'', ''BOGUS'')], ppapi = True\<rparr>
          state_new)) = []
   \<and> fst (Init demo_env \<lparr>string_map = [(''aaa'', ''1''), (''filesystem_resource'', ''5'')], ppapi = True\<rparr>
          state_new) = EINVAL
   \<and> calls (snd (Init demo_env \<lparr>string_map = [(''aaa'', ''1''), (''filesystem_resource'', ''5'')], ppapi = True\<rparr>
          state_new)) = []
   \<and> fst (Init demo_env \<lparr>string_map = [(''filesystem_resource'', ''7''), (''type'', ''BOGUS'')], ppapi = True\<rparr>
          state_new) = EINVAL
   \<and> calls (snd (Init demo_env \<lparr>string_map = [(''filesystem_resource'', ''7''), (''type'', ''BOGUS'')], ppapi = True\<rparr>
          state_new)) = [Call_FileSystem_IsFileSystem 7]"
proof -
  let ?a = "\<lparr>string_map = [(''SOURCE'', ''/saved''), (''type'', ''BOGUS'')], ppapi = True\<rparr>"
  let ?b = "\<lparr>string_map = [(''aaa'', ''1''), (''filesystem_resource'', ''5'')], ppapi = True\<rparr>"
  let ?c = "\<lparr>string_map = [(''filesystem_resource'', ''7''), (''type'', ''BOGUS'')], ppapi = True\<rparr>"
  have base: "Filesystem_Init demo_env x = 0" for x by (simp add: demo_env_def)
  have pp: "ppapi ?a" "ppapi ?b" "ppapi ?c" by simp_all
  have ok: "string_map_ok (string_map ?a)" "string_map_ok (string_map ?b)"
    "string_map_ok (string_map ?c)"
    by (simp_all add: string_map_ok_def)
  have bad1: "bad_entry (''type'', ''BOGUS'')" by (simp add: bad_entry_def)
  have bad2: "bad_entry (''aaa'', ''1'')" by (simp add: bad_entry_def recognised_key_def)
  have good: "\<not> bad_entry (''SOURCE'', ''/saved'')" "\<not> bad_entry (''filesystem_resource'', v)" for v
    by (simp_all add: bad_entry_def recognised_key_def)
  have lt: "''aaa'' < ''filesystem_resource''" "\<not> ''type'' < ''filesystem_resource''"
    "\<not> ''filesystem_resource'' < ''filesystem_resource''"
    by simp_all
  have ex: "\<exists>kv \<in> set (string_map ?a). bad_entry kv" "\<exists>kv \<in> set (string_map ?b). bad_entry kv"
    "\<exists>kv \<in> set (string_map ?c). bad_entry kv"
    using bad1 bad2 by simp_all
  have r7: "(ucast (strtoull ''7'') :: PP_Resource) = 7"
    by (simp add: strtoull_def isspace_def isdigit_def)
  have inv: "\<not> FileSystem_IsFileSystem demo_env h 7" for h by (simp add: demo_env_def)
  have c0: "calls state_new = []" by (simp add: state_new_def)
  from init_bad_configuration [OF base pp(1) ok(1) ex(1), of state_new]
  have 1: "fst (Init demo_env ?a state_new) = EINVAL \<and> calls (snd (Init demo_env ?a state_new)) = []"
    by (simp add: c0)
  from init_bad_configuration [OF base pp(2) ok(2) ex(2), of state_new]
  have 2: "fst (Init demo_env ?b state_new) = EINVAL \<and> calls (snd (Init demo_env ?b state_new)) = []"
    by (simp add: c0 bad2 lt)
  from init_bad_configuration [OF base pp(3) ok(3) ex(3), of state_new]
  have 3: "fst (Init demo_env ?c state_new) = EINVAL
           \<and> calls (snd (Init demo_env ?c state_new)) = [Call_FileSystem_IsFileSystem 7]"
    by (simp add: c0 bad1 good lt r7 inv)
  from 1 2 3 show ?thesis by simp
qed

subsection \<open>A filesystem handle supplied by the configuration\<close>

lemma string_map_distinct: "string_map_ok m \<Longrightarrow> distinct (map fst m)"
  by (simp add: string_map_ok_def strict_sorted_iff)

lemma Init_parse_no_resource:
  assumes "''filesystem_resource'' \<notin> fst ` set m" and "\<forall>kv \<in> set m. \<not> bad_entry kv"
  shows "\<exists>ft' es' s'. Init_parse env m ft es s = (None, ft', es', s')
           \<and> calls s' = calls s
           \<and> filesystem_resource (self s') = filesystem_resource (self s)
           \<and> filesystem_open_has_result (self s') = filesystem_open_has_result (self s)
           \<and> filesystem_open_error (self s') = filesystem_open_error (self s)"
  using assms
proof (induction m arbitrary: ft es s)
  case Nil
  then show ?case by simp
next
  case (Cons a m)
  obtain k v where a: "a = (k, v)" by (cases a)
  from Cons.prems a have good: "\<not> bad_entry (k, v)" and k: "k \<noteq> ''filesystem_resource''"
    by auto
  from Cons.prems have rest: "''filesystem_resource'' \<notin> fst ` set m" "\<forall>kv \<in> set m. \<not> bad_entry kv"
    by auto
  note IH = Cons.IH [OF rest]
  show ?case
  proof (cases k rule: key_cases)
    case type
    with good_entry_type good have "v = ''PERSISTENT'' \<or> v = ''TEMPORARY'' \<or> v = []" by blast
    then show ?thesis using IH type by (auto simp: a parse_type)
  next
    case size
    then show ?thesis using IH by (simp add: a parse_expected_size)
  next
    case resource
    with k show ?thesis by simp
  next
    case source
    then show ?thesis using IH [of ft es "s\<lparr>self := (self s)\<lparr>prefix := v\<rparr>\<rparr>"]
      by (simp add: a parse_source)
  next
    case unknown
    with good good_entry_key show ?thesis by blast
  qed
qed

lemma Init_parse_invalid:
  assumes "distinct (map fst m)" and "(''filesystem_resource'', v) \<in> set m"
    and "\<not> FileSystem_IsFileSystem env (calls s) (ucast (strtoull v))"
  shows "fst (Init_parse env m ft es s) = Some EINVAL"
  using assms
proof (induction m arbitrary: ft es s)
  case Nil
  then show ?case by simp
next
  case (Cons a m)
  obtain k w where a: "a = (k, w)" by (cases a)
  show ?case
  proof (cases "k = ''filesystem_resource''")
    case True
    with Cons.prems(1,2) a have "w = v" by (auto simp: image_iff)
    with True Cons.prems(3) show ?thesis by (simp add: a parse_resource)
  next
    case False
    with Cons.prems a have rest: "distinct (map fst m)" "(''filesystem_resource'', v) \<in> set m"
      by auto
    have IH: "fst (Init_parse env m ft' es' s') = Some EINVAL" if "calls s' = calls s" for ft' es' s'
      using Cons.IH [OF rest, of s'] Cons.prems(3) that by simp
    from False show ?thesis
    proof (cases k rule: key_cases)
      case type
      then show ?thesis using IH by (simp add: a parse_type)
    next
      case size
      then show ?thesis using IH by (simp add: a parse_expected_size)
    next
      case source
      then show ?thesis using IH by (simp add: a parse_source)
    next
      case unknown
      then show ?thesis by (simp add: a parse_unknown)
    qed simp
  qed
qed

lemma Init_parse_valid:
  assumes "distinct (map fst m)" and "(''filesystem_resource'', v) \<in> set m"
    and "FileSystem_IsFileSystem env (calls s) (ucast (strtoull v))"
    and "\<forall>kv \<in> set m. \<not> bad_entry kv"
  shows "\<exists>ft' es' s'. Init_parse env m ft es s = (None, ft', es', s')
           \<and> calls s' = calls s @ [Call_FileSystem_IsFileSystem (ucast (strtoull v)),
                                    Call_AddRefResource (ucast (strtoull v))]
           \<and> filesystem_resource (self s') = ucast (strtoull v)
           \<and> filesystem_open_has_result (self s') = filesystem_open_has_result (self s)
           \<and> filesystem_open_error (self s') = filesystem_open_error (self s)"
  using assms
proof (induction m arbitrary: ft es s)
  case Nil
  then show ?case by simp
next
  case (Cons a m)
  obtain k w where a: "a = (k, w)" by (cases a)
  from Cons.prems a have good: "\<not> bad_entry (k, w)" and goods: "\<forall>kv \<in> set m. \<not> bad_entry kv"
    by auto
  show ?case
  proof (cases "k = ''filesystem_resource''")
    case True
    with Cons.prems(1,2) a have w: "w = v" by (auto simp: image_iff)
    from True Cons.prems(1) a have none: "''filesystem_resource'' \<notin> fst ` set m" by auto
    let ?r = "ucast (strtoull v) :: PP_Resource"
    let ?s1 = "log_call (Call_AddRefResource ?r)
                 ((log_call (Call_FileSystem_IsFileSystem ?r) s)
                    \<lparr>self := (self (log_call (Call_FileSystem_IsFileSystem ?r) s))\<lparr>filesystem_resource := ?r\<rparr>\<rparr>)"
    from Init_parse_no_resource [OF none goods, of env ft es ?s1]
    obtain ft' es' s' where
      "Init_parse env m ft es ?s1 = (None, ft', es', s')" "calls s' = calls ?s1"
      "filesystem_resource (self s') = filesystem_resource (self ?s1)"
      "filesystem_open_has_result (self s') = filesystem_open_has_result (self ?s1)"
      "filesystem_open_error (self s') = filesystem_open_error (self ?s1)"
      by blast
    with True w Cons.prems(3) show ?thesis
      by (simp add: a parse_resource log_call_def)
  next
    case False
    with Cons.prems a have rest: "distinct (map fst m)" "(''filesystem_resource'', v) \<in> set m"
      by auto
    have IH: "\<exists>ft'' es'' s''. Init_parse env m ft' es' s' = (None, ft'', es'', s'')
           \<and> calls s'' = calls s @ [Call_FileSystem_IsFileSystem (ucast (strtoull v)),
                                    Call_AddRefResource (ucast (strtoull v))]
           \<and> filesystem_resource (self s'') = ucast (strtoull v)
           \<and> filesystem_open_has_result (self s'') = filesystem_open_has_result (self s)
           \<and> filesystem_open_error (self s'') = filesystem_open_error (self s)"
      if "calls s' = calls s" "filesystem_open_has_result (self s') = filesystem_open_has_result (self s)"
         "filesystem_open_error (self s') = filesystem_open_error (self s)" for ft' es' s'
      using Cons.IH [OF rest _ goods, of s' ft' es'] Cons.prems(3) that by simp
    from False show ?thesis
    proof (cases k rule: key_cases)
      case type
      with good_entry_type good have "w = ''PERSISTENT'' \<or> w = ''TEMPORARY'' \<or> w = []" by blast
      then show ?thesis using IH type by (auto simp: a parse_type)
    next
      case size
      then show ?thesis using IH by (simp add: a parse_expected_size)
    next
      case source
      then show ?thesis using IH [of "s\<lparr>self := (self s)\<lparr>prefix := w\<rparr>\<rparr>" ft es]
        by (simp add: a parse_source)
    next
      case unknown
      with good good_entry_key show ?thesis by blast
    qed simp
  qed
qed

text \<open>
  C8, as the specification states it, fails: a validated handle does not make \<open>Init\<close>
  succeed when a later entry of the map is rejected. With the valid handle 5 and
  \<open>type\<close> set to \<open>BOGUS\<close>, \<open>Init\<close> returns \<^verbatim>\<open>EINVAL\<close> and the gate stays unresolved.
\<close>

theorem init_supplied_resource_counterexample:
  "string_map_ok [(''filesystem_resource'', ''5''), (''type'', ''BOGUS'')]
   \<and> FileSystem_IsFileSystem demo_env (calls state_new) (ucast (strtoull ''5''))
   \<and> Init demo_env \<lparr>string_map = [(''filesystem_resource'', ''5''), (''type'', ''BOGUS'')], ppapi = True\<rparr>
        state_new
       = (EINVAL, \<lparr>self = Html5Fs_new\<lparr>filesystem_resource := 5\<rparr>,
                  calls = [Call_FileSystem_IsFileSystem 5, Call_AddRefResource 5]\<rparr>)
   \<and> BlockUntilFilesystemOpen
        \<lparr>self = Html5Fs_new\<lparr>filesystem_resource := 5\<rparr>,
         calls = [Call_FileSystem_IsFileSystem 5, Call_AddRefResource 5]\<rparr> = None"
proof -
  have a: "string_map_ok [(''filesystem_resource'', ''5''), (''type'', ''BOGUS'')]"
    by (simp add: string_map_ok_def)
  have b: "FileSystem_IsFileSystem demo_env (calls state_new) (ucast (strtoull ''5''))"
    by (simp add: init_eval)
  have c: "Init demo_env \<lparr>string_map = [(''filesystem_resource'', ''5''), (''type'', ''BOGUS'')], ppapi = True\<rparr>
        state_new
       = (EINVAL, \<lparr>self = Html5Fs_new\<lparr>filesystem_resource := 5\<rparr>,
                  calls = [Call_FileSystem_IsFileSystem 5, Call_AddRefResource 5]\<rparr>)"
    by (simp add: init_eval)
  have d: "BlockUntilFilesystemOpen
        \<lparr>self = Html5Fs_new\<lparr>filesystem_resource := 5\<rparr>,
         calls = [Call_FileSystem_IsFileSystem 5, Call_AddRefResource 5]\<rparr> = None"
    by (simp add: BlockUntilFilesystemOpen_def Html5Fs_new_def)
  from a b c d show ?thesis by simp
qed

text \<open>
  C8, amended. Let the base initialisation succeed, a Pepper interface be supplied and
  the map hold a \<open>filesystem_resource\<close> entry. If the service does not accept the
  identifier as a filesystem, \<open>Init\<close> returns \<^verbatim>\<open>EINVAL\<close>. If it accepts it, the
  identifier is not 0 and no entry of the map is rejected, \<open>Init\<close> returns success with
  the gate resolved to success and the handle stored, having sent the validation and
  the add-reference request and nothing else: no create and no open request.
\<close>

theorem init_supplied_resource:
  assumes base: "Filesystem_Init env args = 0" "ppapi args"
    and m: "string_map_ok (string_map args)" "(''filesystem_resource'', v) \<in> set (string_map args)"
    and r: "resource = ucast (strtoull v)"
  shows "(\<not> FileSystem_IsFileSystem env (calls s) resource \<longrightarrow> fst (Init env args s) = EINVAL)
    \<and> (FileSystem_IsFileSystem env (calls s) resource \<and> resource \<noteq> 0
          \<and> (\<forall>kv \<in> set (string_map args). \<not> bad_entry kv) \<longrightarrow>
        (\<exists>s'. Init env args s = (0, s')
           \<and> BlockUntilFilesystemOpen s' = Some (0, s')
           \<and> filesystem_resource (self s') = resource
           \<and> calls s' = calls s @ [Call_FileSystem_IsFileSystem resource,
                                    Call_AddRefResource resource]))"
proof (intro conjI impI)
  note d = string_map_distinct [OF m(1)]
  {
    assume inv: "\<not> FileSystem_IsFileSystem env (calls s) resource"
    obtain e ft es s1 where
      p: "Init_parse env (string_map args) PP_FILESYSTEMTYPE_LOCALPERSISTENT 0 s = (e, ft, es, s1)"
      by (cases "Init_parse env (string_map args) PP_FILESYSTEMTYPE_LOCALPERSISTENT 0 s")
    from Init_parse_invalid [OF d m(2), of env s PP_FILESYSTEMTYPE_LOCALPERSISTENT 0] inv r p
    have "e = Some EINVAL" by simp
    with base p show "fst (Init env args s) = EINVAL" by (simp add: Init_def)
  }
  {
    assume ok: "FileSystem_IsFileSystem env (calls s) resource \<and> resource \<noteq> 0
          \<and> (\<forall>kv \<in> set (string_map args). \<not> bad_entry kv)"
    with r have valid: "FileSystem_IsFileSystem env (calls s) (ucast (strtoull v))"
      and goods: "\<forall>kv \<in> set (string_map args). \<not> bad_entry kv" and nz: "resource \<noteq> 0"
      by simp_all
    from Init_parse_valid [OF d m(2) valid goods, of PP_FILESYSTEMTYPE_LOCALPERSISTENT 0]
    obtain ft es s1 where
      p: "Init_parse env (string_map args) PP_FILESYSTEMTYPE_LOCALPERSISTENT 0 s = (None, ft, es, s1)"
      and c: "calls s1 = calls s @ [Call_FileSystem_IsFileSystem (ucast (strtoull v)),
                                    Call_AddRefResource (ucast (strtoull v))]"
      and f: "filesystem_resource (self s1) = ucast (strtoull v)"
      by blast
    from base p f nz r c
    show "\<exists>s'. Init env args s = (0, s')
           \<and> BlockUntilFilesystemOpen s' = Some (0, s')
           \<and> filesystem_resource (self s') = resource
           \<and> calls s' = calls s @ [Call_FileSystem_IsFileSystem resource,
                                    Call_AddRefResource resource]"
      by (simp add: Init_def BlockUntilFilesystemOpen_def PP_OK_def)
  }
qed

theorem init_supplied_resource_witness:
  "Init demo_env \<lparr>string_map = [(''SOURCE'', ''/saved''), (''filesystem_resource'', ''5'')], ppapi = True\<rparr>
        state_new
     = (0, \<lparr>self = \<lparr>prefix = ''/saved'', filesystem_resource = 5,
                     filesystem_open_has_result = True, filesystem_open_error = 0\<rparr>,
            calls = [Call_FileSystem_IsFileSystem 5, Call_AddRefResource 5]\<rparr>)
   \<and> fst (Init demo_env \<lparr>string_map = [(''filesystem_resource'', ''7'')], ppapi = True\<rparr> state_new)
       = EINVAL"
proof -
  let ?a = "\<lparr>string_map = [(''SOURCE'', ''/saved''), (''filesystem_resource'', ''5'')], ppapi = True\<rparr>"
  let ?b = "\<lparr>string_map = [(''filesystem_resource'', ''7'')], ppapi = True\<rparr>"
  have base: "Filesystem_Init demo_env x = 0" for x by (simp add: demo_env_def)
  have pa: "ppapi ?a" and pb: "ppapi ?b" by simp_all
  have ma: "string_map_ok (string_map ?a)" and mb: "string_map_ok (string_map ?b)"
    by (simp_all add: string_map_ok_def)
  have ia: "(''filesystem_resource'', ''5'') \<in> set (string_map ?a)"
    and ib: "(''filesystem_resource'', ''7'') \<in> set (string_map ?b)" by simp_all
  have ra: "(5 :: PP_Resource) = ucast (strtoull ''5'')"
    and rb: "(7 :: PP_Resource) = ucast (strtoull ''7'')"
    by (simp_all add: strtoull_def isspace_def isdigit_def)
  have va: "FileSystem_IsFileSystem demo_env h 5" and vb: "\<not> FileSystem_IsFileSystem demo_env h 7" for h
    by (simp_all add: demo_env_def)
  have ga: "\<forall>kv \<in> set (string_map ?a). \<not> bad_entry kv"
    by (simp add: bad_entry_def recognised_key_def)
  have 1: "Init demo_env ?a state_new
     = (0, \<lparr>self = \<lparr>prefix = ''/saved'', filesystem_resource = 5,
                     filesystem_open_has_result = True, filesystem_open_error = 0\<rparr>,
            calls = [Call_FileSystem_IsFileSystem 5, Call_AddRefResource 5]\<rparr>)"
    by (simp add: init_eval)
  from init_supplied_resource [OF base pa ma ia ra, of state_new] va ga
  have "\<exists>s'. Init demo_env ?a state_new = (0, s') \<and> BlockUntilFilesystemOpen s' = Some (0, s')"
    by auto
  moreover from init_supplied_resource [OF base pb mb ib rb, of state_new] vb
  have "fst (Init demo_env ?b state_new) = EINVAL" by blast
  ultimately show ?thesis using 1 by simp
qed

end
